theory Spec2Isabelle
  imports Main "HOL-Library.Multiset"
begin

unbundle bit_operations_syntax

section \<open>Errors and constants\<close>

text \<open>
  The exception classes of \<^verbatim>\<open>kademlia.py\<close>, together with the built-in Python
  exceptions that the embedded functions can raise. A raised exception is the \<open>Inl\<close>
  branch of a sum.
\<close>

datatype error =
    TooManyContactsError
  | OutOfRangeError
  | OurNodeCannotBeAContactError
  | AllKBucketsAreEmptyError
  | SendingQueryToSelfError
  | SenderIsSelfError
  | ValueError
  | IndexError
  | StatisticsError
  | TypeError
  | AttributeError
  | NameError
  | RecursionError

text \<open>\<^verbatim>\<open>class Constants\<close>: \<open>K = 20\<close>, \<open>B = 160\<close>, \<open>A = 3\<close>; and the module flag \<open>DEBUG = True\<close>.\<close>

definition K :: nat where
  "K = 20"

definition B :: nat where
  "B = 160"

definition A :: nat where
  "A = 3"

definition EXPIRATION_TIME_SEC :: int where
  "EXPIRATION_TIME_SEC = 86400"

definition DEBUG :: bool where
  "DEBUG = True"

section \<open>Python lists\<close>

text \<open>
  \<^verbatim>\<open>xs[i]\<close>, \<open>xs[i] = v\<close> and \<open>xs.insert(i, v)\<close> with Python's reading of a negative
  index (counted from the end). Reading or writing out of range raises \<open>IndexError\<close>;
  \<open>insert\<close> clamps its index to the list.
\<close>

definition py_norm :: "'a list \<Rightarrow> int \<Rightarrow> int" where
  "py_norm xs i = (if i < 0 then int (length xs) + i else i)"

definition py_getitem :: "'a list \<Rightarrow> int \<Rightarrow> error + 'a" where
  "py_getitem xs i =
     (let j = py_norm xs i
      in if 0 \<le> j \<and> j < int (length xs) then Inr (xs ! nat j) else Inl IndexError)"

definition py_setitem :: "'a list \<Rightarrow> int \<Rightarrow> 'a \<Rightarrow> error + 'a list" where
  "py_setitem xs i v =
     (let j = py_norm xs i
      in if 0 \<le> j \<and> j < int (length xs) then Inr (xs[nat j := v]) else Inl IndexError)"

definition py_insert :: "'a list \<Rightarrow> int \<Rightarrow> 'a \<Rightarrow> 'a list" where
  "py_insert xs i v =
     (let j = py_norm xs i;
          p = (if j < 0 then 0 else if int (length xs) < j then length xs else nat j)
      in take p xs @ [v] @ drop p xs)"

text \<open>\<^verbatim>\<open>xs.index(v)\<close>: the position of the first element equal to \<open>v\<close>, if any.\<close>

fun py_index_of :: "'a list \<Rightarrow> 'a \<Rightarrow> nat option" where
  "py_index_of [] v = None"
| "py_index_of (x # xs) v =
     (if x = v then Some 0 else map_option Suc (py_index_of xs v))"

section \<open>ID\<close>

text \<open>
  \<^verbatim>\<open>class ID\<close> wraps a Python integer \<open>value\<close>. The constructor raises \<open>ValueError\<close>
  unless \<open>MAX_ID > value >= MIN_ID\<close>. \<open>__eq__\<close> compares the wrapped values, which is
  equality of the datatype.
\<close>

datatype ID = ID (ID_value: int)

definition MAX_ID :: int where
  "MAX_ID = 2 ^ 160"

definition MIN_ID :: int where
  "MIN_ID = 0"

definition ID_init :: "int \<Rightarrow> error + ID" where
  "ID_init v = (if MAX_ID > v \<and> v \<ge> MIN_ID then Inr (ID v) else Inl ValueError)"

text \<open>\<^verbatim>\<open>ID.__xor__\<close> with an \<open>ID\<close> operand: \<open>self.value ^ val.value\<close>, a plain integer.\<close>

definition ID_xor :: "ID \<Rightarrow> ID \<Rightarrow> int" where
  "ID_xor a b = ID_value a XOR ID_value b"

section \<open>Contact\<close>

text \<open>
  Time stamps (\<^verbatim>\<open>datetime.now()\<close>) are natural numbers, read from a clock that the
  caller passes in. The protocol handle of a contact is only ever dereferenced on the
  eviction path of \<open>BucketList.add_contact\<close>; the model keeps whether it is \<open>None\<close>.
\<close>

type_synonym datetime = nat

datatype protocol = VirtualProtocol bool

record contact =
  cid :: ID
  protocol :: "protocol option"
  last_seen :: datetime

text \<open>\<^verbatim>\<open>Contact(id, protocol)\<close> built at clock \<open>now\<close>.\<close>

definition Contact_init :: "datetime \<Rightarrow> ID \<Rightarrow> protocol option \<Rightarrow> contact" where
  "Contact_init now i p = \<lparr>cid = i, protocol = p, last_seen = now\<rparr>"

definition touch :: "datetime \<Rightarrow> contact \<Rightarrow> contact" where
  "touch now c = c\<lparr>last_seen := now\<rparr>"

section \<open>KBucket\<close>

record KBucket =
  contacts :: "contact list"
  low :: int
  high :: int
  time_stamp :: datetime

text \<open>\<^verbatim>\<open>KBucket(low=l, high=h)\<close> at clock \<open>now\<close>, with no initial contacts.\<close>

definition KBucket_init :: "datetime \<Rightarrow> int \<Rightarrow> int \<Rightarrow> KBucket" where
  "KBucket_init now l h = \<lparr>contacts = [], low = l, high = h, time_stamp = now\<rparr>"

definition is_full :: "KBucket \<Rightarrow> bool" where
  "is_full b = (length (contacts b) \<ge> K)"

definition contains :: "KBucket \<Rightarrow> ID \<Rightarrow> bool" where
  "contains b i = list_ex (\<lambda>c. i = cid c) (contacts b)"

definition is_in_range :: "KBucket \<Rightarrow> ID \<Rightarrow> bool" where
  "is_in_range b other_id = (low b \<le> ID_value other_id \<and> ID_value other_id \<le> high b)"

definition KBucket_add_contact :: "KBucket \<Rightarrow> contact \<Rightarrow> error + KBucket" where
  "KBucket_add_contact b c =
     (if is_full b then Inl TooManyContactsError
      else if \<not> is_in_range b (cid c) then Inl OutOfRangeError
      else Inr (b\<lparr>contacts := contacts b @ [c]\<rparr>))"

text \<open>
  \<^verbatim>\<open>replace_contact\<close>: \<open>contact_ids.index(contact.id)\<close> raises \<open>ValueError\<close> when the ID
  is absent; otherwise the entry is overwritten and the contact touched.
\<close>

definition replace_contact :: "datetime \<Rightarrow> KBucket \<Rightarrow> contact \<Rightarrow> error + KBucket" where
  "replace_contact now b c =
     (case py_index_of (map cid (contacts b)) (cid c) of
        None \<Rightarrow> Inl ValueError
      | Some i \<Rightarrow> Inr (b\<lparr>contacts := (contacts b)[i := touch now c]\<rparr>))"

section \<open>BucketList: locating a bucket\<close>

record BucketList =
  buckets :: "KBucket list"
  our_id :: ID

text \<open>\<^verbatim>\<open>BucketList(our_id)\<close>: one bucket with the default range \<open>low = 0\<close>, \<open>high = 2**160\<close>.\<close>

definition BucketList_init :: "datetime \<Rightarrow> ID \<Rightarrow> BucketList" where
  "BucketList_init now i = \<lparr>buckets = [KBucket_init now 0 (2 ^ 160)], our_id = i\<rparr>"

text \<open>
  \<^verbatim>\<open>_get_kbucket_index\<close>: the loop \<open>for i in range(len(self.buckets))\<close> returns the
  first index whose bucket has the ID in range, and \<open>-1\<close> after the loop.
\<close>

fun get_kbucket_index_from :: "int \<Rightarrow> KBucket list \<Rightarrow> ID \<Rightarrow> int" where
  "get_kbucket_index_from i [] other_id = -1"
| "get_kbucket_index_from i (b # bs) other_id =
     (if is_in_range b other_id then i else get_kbucket_index_from (i + 1) bs other_id)"

definition get_kbucket_index :: "BucketList \<Rightarrow> ID \<Rightarrow> int" where
  "get_kbucket_index bl other_id = get_kbucket_index_from 0 (buckets bl) other_id"

text \<open>
  \<^verbatim>\<open>get_kbucket\<close>: \<open>self.buckets[self._get_kbucket_index(other_id)]\<close>, with the
  \<open>IndexError\<close> of the subscript turned into \<open>OutOfRangeError\<close>.
\<close>

definition get_kbucket :: "BucketList \<Rightarrow> ID \<Rightarrow> error + KBucket" where
  "get_kbucket bl other_id =
     (case py_getitem (buckets bl) (get_kbucket_index bl other_id) of
        Inl e \<Rightarrow> Inl OutOfRangeError
      | Inr bucket \<Rightarrow> Inr bucket)"

section \<open>KBucket: depth\<close>

text \<open>
  Python's \<^verbatim>\<open>bin(v)\<close>: an optional sign, the tag \<open>0b\<close>, and the binary digits of
  \<open>|v|\<close> with the most significant bit first (\<open>bin(0) = '0b0'\<close>). \<^verbatim>\<open>ID.bin\<close> is
  \<open>bin(self.value)[2:]\<close>.
\<close>

fun bin_digits :: "nat \<Rightarrow> string" where
  "bin_digits n =
     (if n < 2 then [if n = 0 then CHR ''0'' else CHR ''1'']
      else bin_digits (n div 2) @ [if n mod 2 = 0 then CHR ''0'' else CHR ''1''])"

declare bin_digits.simps [simp del]

definition py_bin :: "int \<Rightarrow> string" where
  "py_bin v = (if v < 0 then ''-0b'' @ bin_digits (nat (- v)) else ''0b'' @ bin_digits (nat v))"

definition ID_bin :: "ID \<Rightarrow> string" where
  "ID_bin i = drop 2 (py_bin (ID_value i))"

text \<open>
  \<^verbatim>\<open>longest_shared_prefix_str(a, b)\<close>, the local function of \<open>shared_bits\<close>: the operands
  are swapped when \<open>a\<close> is the shorter one, then the loop over \<open>range(len(b))\<close> returns
  \<open>a[:i]\<close> at the first differing position and \<open>b\<close> when there is none.
\<close>

function lsp_loop :: "nat \<Rightarrow> string \<Rightarrow> string \<Rightarrow> string" where
  "lsp_loop i a b =
     (if i < length b then (if a ! i \<noteq> b ! i then take i a else lsp_loop (i + 1) a b) else b)"
  by pat_completeness auto
termination
  by (relation "measure (\<lambda>(i, a, b). length b - i)") auto

declare lsp_loop.simps [simp del]

definition longest_shared_prefix_str :: "string \<Rightarrow> string \<Rightarrow> string" where
  "longest_shared_prefix_str a b =
     (if length a < length b then lsp_loop 0 b a else lsp_loop 0 a b)"

text \<open>
  \<^verbatim>\<open>shared_bits\<close>: starts from \<open>self.contacts[0].id.bin()[2:]\<close> (an \<open>IndexError\<close> on an
  empty bucket) and folds \<open>longest_shared_prefix_str(contact.id.bin()[2:], longest_prefix)\<close>
  over \<open>self.contacts[1:]\<close>. \<^verbatim>\<open>depth\<close> is the length of the result.
\<close>

definition shared_bits :: "KBucket \<Rightarrow> error + string" where
  "shared_bits b =
     (case contacts b of
        [] \<Rightarrow> Inl IndexError
      | c # cs \<Rightarrow>
          Inr (foldl (\<lambda>longest_prefix contact.
                        longest_shared_prefix_str (drop 2 (ID_bin (cid contact))) longest_prefix)
                 (drop 2 (ID_bin (cid c))) cs))"

definition depth :: "KBucket \<Rightarrow> error + nat" where
  "depth b = (case shared_bits b of Inl e \<Rightarrow> Inl e | Inr s \<Rightarrow> Inr (length s))"

section \<open>KBucket: split\<close>

text \<open>
  \<^verbatim>\<open>statistics.median_high\<close> of a list: \<open>StatisticsError\<close> when it is empty, otherwise
  the element at index \<open>n // 2\<close> of the sorted data.
\<close>

definition median_high :: "int list \<Rightarrow> error + int" where
  "median_high data =
     (let d = sort data; n = length d
      in if n = 0 then Inl StatisticsError else Inr (d ! (n div 2)))"

text \<open>
  The loop of \<^verbatim>\<open>split\<close>: each contact goes through \<open>KBucket.add_contact\<close> of \<open>k1\<close> when
  its ID is below the midpoint and of \<open>k2\<close> otherwise; an exception of \<open>add_contact\<close>
  ends the loop.
\<close>

fun split_loop :: "int \<Rightarrow> KBucket \<Rightarrow> KBucket \<Rightarrow> contact list \<Rightarrow> error + KBucket \<times> KBucket" where
  "split_loop midpoint k1 k2 [] = Inr (k1, k2)"
| "split_loop midpoint k1 k2 (c # cs) =
     (if ID_value (cid c) < midpoint
      then (case KBucket_add_contact k1 c of
              Inl e \<Rightarrow> Inl e
            | Inr k1' \<Rightarrow> split_loop midpoint k1' k2 cs)
      else (case KBucket_add_contact k2 c of
              Inl e \<Rightarrow> Inl e
            | Inr k2' \<Rightarrow> split_loop midpoint k1 k2' cs))"

definition split :: "datetime \<Rightarrow> KBucket \<Rightarrow> error + KBucket \<times> KBucket" where
  "split now b =
     (let contact_ids_asc = sort (map (\<lambda>c. ID_value (cid c)) (contacts b))
      in case median_high contact_ids_asc of
           Inl e \<Rightarrow> Inl e
         | Inr midpoint \<Rightarrow>
             split_loop midpoint (KBucket_init now (low b) midpoint)
               (KBucket_init now midpoint (high b)) (contacts b))"

section \<open>BucketList: insertion and lookup\<close>

text \<open>
  \<^verbatim>\<open>can_split\<close>: \<open>kbucket.is_in_range(self.our_id) or (kbucket.depth() % B != 0)\<close>; the
  second operand is evaluated only when the first is false.
\<close>

definition can_split :: "BucketList \<Rightarrow> KBucket \<Rightarrow> error + bool" where
  "can_split bl kbucket =
     (if is_in_range kbucket (our_id bl) then Inr True
      else (case depth kbucket of Inl e \<Rightarrow> Inl e | Inr d \<Rightarrow> Inr (d mod B \<noteq> 0)))"

text \<open>
  The branch of \<^verbatim>\<open>add_contact\<close> for a full bucket that cannot be split:
  \<open>sorted(kbucket.contacts, key=lambda c: c.last_seen)[0]\<close>, then
  \<open>last_seen_contact.protocol.ping(our_contact)\<close>. The attribute lookup raises
  \<open>AttributeError\<close> when the protocol is \<open>None\<close>; otherwise the argument \<open>our_contact\<close>,
  a name bound nowhere in that scope, raises \<open>NameError\<close>. The branch never returns.
\<close>

definition eviction_path :: "KBucket \<Rightarrow> error" where
  "eviction_path kbucket =
     (case sort_key last_seen (contacts kbucket) of
        [] \<Rightarrow> IndexError
      | last_seen_contact # rest \<Rightarrow>
          (case protocol last_seen_contact of
             None \<Rightarrow> AttributeError
           | Some p \<Rightarrow> NameError))"

text \<open>
  A bucket is a mutable object of the list \<open>self.buckets\<close>; a method that changes the
  bucket returned by \<open>get_kbucket\<close> changes the list entry at the index that
  \<open>_get_kbucket_index\<close> gives (also when that index is \<open>-1\<close>).
\<close>

definition put_kbucket :: "BucketList \<Rightarrow> int \<Rightarrow> KBucket \<Rightarrow> BucketList" where
  "put_kbucket bl index kb =
     bl\<lparr>buckets := (buckets bl)[nat (py_norm (buckets bl) index) := kb]\<rparr>"

text \<open>
  \<^verbatim>\<open>BucketList.add_contact\<close>. The result is the bucket list after the call and the
  exception, if one was raised: changes made before an exception (a split) stay. The
  function calls itself after a split; the first argument bounds the depth of these calls
  as the interpreter's recursion limit does (\<open>RecursionError\<close>). The contact passed in is
  a newly built object, not an entry of the list.
\<close>

fun BucketList_add_contact ::
  "nat \<Rightarrow> datetime \<Rightarrow> contact \<Rightarrow> BucketList \<Rightarrow> BucketList \<times> error option" where
  "BucketList_add_contact 0 now contact bl = (bl, Some RecursionError)"
| "BucketList_add_contact (Suc fuel) now contact bl =
     (if our_id bl = cid contact then (bl, Some OurNodeCannotBeAContactError)
      else
        let c = touch now contact in
        case get_kbucket bl (cid c) of
          Inl e \<Rightarrow> (bl, Some e)
        | Inr kbucket \<Rightarrow>
            if contains kbucket (cid c) then
              (case replace_contact now kbucket c of
                 Inl e \<Rightarrow> (bl, Some e)
               | Inr kb \<Rightarrow> (put_kbucket bl (get_kbucket_index bl (cid c)) kb, None))
            else if is_full kbucket then
              (case can_split bl kbucket of
                 Inl e \<Rightarrow> (bl, Some e)
               | Inr True \<Rightarrow>
                   (case split now kbucket of
                      Inl e \<Rightarrow> (bl, Some e)
                    | Inr (k1, k2) \<Rightarrow>
                        let index = get_kbucket_index bl (cid c) in
                        (case py_setitem (buckets bl) index k1 of
                           Inl e \<Rightarrow> (bl, Some e)
                         | Inr bs \<Rightarrow>
                             BucketList_add_contact fuel now c
                               (bl\<lparr>buckets := py_insert bs (index + 1) k2\<rparr>)))
               | Inr False \<Rightarrow> (bl, Some (eviction_path kbucket)))
            else
              (case KBucket_add_contact kbucket c of
                 Inl e \<Rightarrow> (bl, Some e)
               | Inr kb \<Rightarrow> (put_kbucket bl (get_kbucket_index bl (cid c)) kb, None)))"

text \<open>
  \<^verbatim>\<open>get_close_contacts\<close>: every contact of every bucket whose ID differs from
  \<open>exclude\<close>, sorted (stably) by \<open>c.id ^ key\<close> and cut to the first \<open>K\<close>; the \<open>ValueError\<close>
  of the check that follows is a branch of the model.
\<close>

definition get_close_contacts :: "BucketList \<Rightarrow> ID \<Rightarrow> ID \<Rightarrow> error + contact list" where
  "get_close_contacts bl key exclude =
     (let all_contacts = filter (\<lambda>c. cid c \<noteq> exclude) (concat (map contacts (buckets bl)));
          closest = take K (sort_key (\<lambda>c. ID_xor (cid c) key) all_contacts)
      in if length closest > K \<and> DEBUG then Inl ValueError else Inr closest)"

text \<open>\<^verbatim>\<open>BucketList.contacts\<close>: the contacts of all buckets, in order.\<close>

definition BucketList_contacts :: "BucketList \<Rightarrow> contact list" where
  "BucketList_contacts bl = concat (map contacts (buckets bl))"

text \<open>The interpreter's default recursion limit, \<^verbatim>\<open>sys.getrecursionlimit()\<close>.\<close>

definition recursion_limit :: nat where
  "recursion_limit = 1000"

text \<open>
  A sequence of \<^verbatim>\<open>add_contact\<close> calls, one per contact of the list, each on the bucket
  list the previous call left (whether or not it raised).
\<close>

definition add_contacts :: "nat \<Rightarrow> datetime \<Rightarrow> contact list \<Rightarrow> BucketList \<Rightarrow> BucketList" where
  "add_contacts fuel now cs bl =
     foldl (\<lambda>s c. fst (BucketList_add_contact fuel now c s)) bl cs"

section \<open>VirtualStorage and Node\<close>

text \<open>
  \<^verbatim>\<open>VirtualStorage\<close> keeps a dictionary from integer keys to strings. Its \<open>get\<close> tests
  \<open>isinstance(type(key), ID)\<close> and \<open>isinstance(type(key), int)\<close>; \<open>type(key)\<close> is a class,
  an instance of neither, so \<open>get\<close> raises \<open>TypeError\<close> for every key.
\<close>

type_synonym VirtualStorage = "int \<rightharpoonup> string"

definition VirtualStorage_contains :: "VirtualStorage \<Rightarrow> ID \<Rightarrow> bool" where
  "VirtualStorage_contains s key = (case s (ID_value key) of None \<Rightarrow> False | Some v \<Rightarrow> True)"

definition VirtualStorage_get :: "VirtualStorage \<Rightarrow> ID \<Rightarrow> error + string" where
  "VirtualStorage_get s key = Inl TypeError"

definition VirtualStorage_set :: "VirtualStorage \<Rightarrow> ID \<Rightarrow> string \<Rightarrow> int \<Rightarrow> VirtualStorage" where
  "VirtualStorage_set s key v expiration_time_sec = s(ID_value key \<mapsto> v)"

text \<open>
  \<^verbatim>\<open>class Node\<close>. \<open>cache_storage\<close> defaults to \<open>None\<close>; calling a method on \<open>None\<close>
  raises \<open>AttributeError\<close>.
\<close>

record Node =
  our_contact :: contact
  storage :: VirtualStorage
  cache_storage :: "VirtualStorage option"
  bucket_list :: BucketList

definition Node_init :: "datetime \<Rightarrow> contact \<Rightarrow> VirtualStorage \<Rightarrow> VirtualStorage option \<Rightarrow> Node" where
  "Node_init now c s cs =
     \<lparr>our_contact = c, storage = s, cache_storage = cs, bucket_list = BucketList_init now (cid c)\<rparr>"

text \<open>\<^verbatim>\<open>send_key_values_if_new_contact\<close> and \<^verbatim>\<open>ping\<close>: the body of each is \<open>pass\<close>.\<close>

definition send_key_values_if_new_contact :: "Node \<Rightarrow> contact \<Rightarrow> Node" where
  "send_key_values_if_new_contact n sender = n"

definition ping :: "Node \<Rightarrow> contact \<Rightarrow> Node \<times> error option" where
  "ping n sender = (n, None)"

text \<open>
  The handlers return the node after the call together with the exception or the
  returned value. The first argument of \<open>store\<close> and \<open>find_node\<close> is the recursion bound
  handed to \<open>BucketList.add_contact\<close>.
\<close>

definition store ::
  "nat \<Rightarrow> datetime \<Rightarrow> Node \<Rightarrow> ID \<Rightarrow> contact \<Rightarrow> string \<Rightarrow> bool \<Rightarrow> int \<Rightarrow> Node \<times> error option" where
  "store fuel now n key sender v is_cached expiration_time_sec =
     (if cid sender = cid (our_contact n) then (n, Some SenderIsSelfError)
      else
        case BucketList_add_contact fuel now sender (bucket_list n) of
          (bl, Some e) \<Rightarrow> (n\<lparr>bucket_list := bl\<rparr>, Some e)
        | (bl, None) \<Rightarrow>
            let n1 = n\<lparr>bucket_list := bl\<rparr> in
            if is_cached then
              (case cache_storage n1 of
                 None \<Rightarrow> (n1, Some AttributeError)
               | Some cs \<Rightarrow>
                   (n1\<lparr>cache_storage := Some (VirtualStorage_set cs key v expiration_time_sec)\<rparr>,
                    None))
            else
              let n2 = send_key_values_if_new_contact n1 sender in
              (n2\<lparr>storage := VirtualStorage_set (storage n2) key v EXPIRATION_TIME_SEC\<rparr>, None))"

definition find_node ::
  "nat \<Rightarrow> datetime \<Rightarrow> Node \<Rightarrow> ID \<Rightarrow> contact
     \<Rightarrow> Node \<times> (error + contact list \<times> string option)" where
  "find_node fuel now n key sender =
     (if cid sender = cid (our_contact n) then (n, Inl SendingQueryToSelfError)
      else
        let n1 = send_key_values_if_new_contact n sender in
        case BucketList_add_contact fuel now sender (bucket_list n1) of
          (bl, Some e) \<Rightarrow> (n1\<lparr>bucket_list := bl\<rparr>, Inl e)
        | (bl, None) \<Rightarrow>
            let n2 = n1\<lparr>bucket_list := bl\<rparr> in
            (case get_close_contacts (bucket_list n2) key (cid sender) of
               Inl e \<Rightarrow> (n2, Inl e)
             | Inr cs \<Rightarrow> (n2, Inr (cs, None))))"

definition find_value ::
  "Node \<Rightarrow> ID \<Rightarrow> contact \<Rightarrow> Node \<times> (error + contact list option \<times> string option)" where
  "find_value n key sender =
     (if cid sender = cid (our_contact n) then (n, Inl SendingQueryToSelfError)
      else
        let n1 = send_key_values_if_new_contact n sender in
        if VirtualStorage_contains (storage n1) key then
          (case VirtualStorage_get (storage n1) key of
             Inl e \<Rightarrow> (n1, Inl e)
           | Inr v \<Rightarrow> (n1, Inr (None, Some v)))
        else
          (case cache_storage n1 of
             None \<Rightarrow> (n1, Inl AttributeError)
           | Some cs \<Rightarrow>
               if VirtualStorage_contains cs key then
                 (case VirtualStorage_get cs key of
                    Inl e \<Rightarrow> (n1, Inl e)
                  | Inr v \<Rightarrow> (n1, Inr (None, Some v)))
               else
                 (case get_close_contacts (bucket_list n1) key (cid sender) of
                    Inl e \<Rightarrow> (n1, Inl e)
                  | Inr cs' \<Rightarrow> (n1, Inr (Some cs', None)))))"

section \<open>Router\<close>

record Router =
  node :: Node
  closer_contacts :: "contact list"
  further_contacts :: "contact list"

text \<open>
  The start of \<^verbatim>\<open>Router.lookup\<close>, up to the two loops that fill \<open>closer_contacts\<close> and
  \<open>further_contacts\<close> (what follows calls \<open>self.query\<close>, whose body is \<open>pass\<close>):
  \<open>all_nodes = get_close_contacts(key, our_id)[0:K]\<close>, \<open>nodes_to_query = all_nodes[0:A]\<close>,
  the classification of \<open>nodes_to_query\<close>, and the loop over \<open>all_nodes[A + 1:]\<close>. The
  result is \<open>nodes_to_query\<close> and the router with its two lists updated.
\<close>

definition lookup_seed :: "Router \<Rightarrow> ID \<Rightarrow> error + contact list \<times> Router" where
  "lookup_seed r key =
     (case get_close_contacts (bucket_list (node r)) key (cid (our_contact (node r))) of
        Inl e \<Rightarrow> Inl e
      | Inr cs \<Rightarrow>
          let all_nodes = take K cs;
              nodes_to_query = take A all_nodes;
              r1 = foldl (\<lambda>r' i.
                     if ID_value (cid i) XOR ID_value key
                          < ID_value (cid (our_contact (node r'))) XOR ID_value key
                     then r'\<lparr>closer_contacts := closer_contacts r' @ [i]\<rparr>
                     else r'\<lparr>further_contacts := further_contacts r' @ [i]\<rparr>)
                     r nodes_to_query;
              r2 = foldl (\<lambda>r' i. r'\<lparr>further_contacts := further_contacts r' @ [i]\<rparr>)
                     r1 (drop (A + 1) all_nodes)
          in Inr (nodes_to_query, r2))"

text \<open>
  \<^verbatim>\<open>get_closer_nodes\<close>. The filter tests \<open>contact.id.value not in [our id value,
  queried id value, closer_contacts, further_contacts]\<close>: a four-element list of two
  integers and two lists. An integer never equals a list, so the last two elements
  exclude nothing.
\<close>

datatype py_item = PyInt int | PyContacts "contact list"

fun py_int_eq :: "int \<Rightarrow> py_item \<Rightarrow> bool" where
  "py_int_eq v (PyInt n) = (v = n)"
| "py_int_eq v (PyContacts cs) = False"

definition get_closer_nodes ::
  "Router \<Rightarrow> ID \<Rightarrow> contact \<Rightarrow> (ID \<Rightarrow> contact \<Rightarrow> contact list \<times> contact option \<times> string option)
     \<Rightarrow> contact list \<Rightarrow> contact list \<Rightarrow> bool \<times> contact list \<times> contact list" where
  "get_closer_nodes r key node_to_query rpc_call closer further =
     (case rpc_call key node_to_query of
        (cs, found_by, val) \<Rightarrow>
          let peers_nodes =
                filter (\<lambda>c. \<not> list_ex (py_int_eq (ID_value (cid c)))
                                 [PyInt (ID_value (cid (our_contact (node r)))),
                                  PyInt (ID_value (cid node_to_query)),
                                  PyContacts closer, PyContacts further]) cs;
              nearest_node_distance = ID_value (cid node_to_query) XOR ID_value key;
              closer1 = foldl (\<lambda>cl p.
                          if ID_value (cid p) XOR ID_value key < nearest_node_distance
                             \<and> ID_value (cid p) \<notin> set (map (\<lambda>i. ID_value (cid i)) cl)
                          then cl @ [p] else cl) closer peers_nodes;
              further1 = foldl (\<lambda>fu p.
                          if ID_value (cid p) XOR ID_value key \<ge> nearest_node_distance
                             \<and> ID_value (cid p) \<notin> set (map (\<lambda>i. ID_value (cid i)) fu)
                          then fu @ [p] else fu) further peers_nodes
          in (val \<noteq> None, closer1, further1))"

section \<open>Example states\<close>

text \<open>Contacts built at clock \<open>0\<close> with no protocol, one per ID value, and their ID values.\<close>

definition contacts_with_ids :: "int list \<Rightarrow> contact list" where
  "contacts_with_ids vs = map (\<lambda>v. Contact_init 0 (ID v) None) vs"

definition contact_ids :: "contact list \<Rightarrow> int list" where
  "contact_ids cs = map (\<lambda>c. ID_value (cid c)) cs"

text \<open>
  The bucket list of a node with ID \<open>2^159\<close> after \<open>add_contact\<close> of 21 contacts with
  the IDs \<open>0, 1, ..., 20\<close>, each call made at clock \<open>1\<close>: the 21st call finds the single
  bucket full and splits it.
\<close>

definition split_on_overflow :: BucketList where
  "split_on_overflow =
     add_contacts recursion_limit 1 (contacts_with_ids [0..20]) (BucketList_init 0 (ID (2 ^ 159)))"

text \<open>
  A router whose node has the ID \<open>2^159\<close> and knows five contacts with the IDs
  \<open>1, 2, 4, 8, 16\<close>; its two contact lists are empty, as \<open>Router.__init__\<close> leaves them.
\<close>

definition five_contacts_router :: Router where
  "five_contacts_router =
     \<lparr>node = (Node_init 0 (Contact_init 0 (ID (2 ^ 159)) None) Map.empty None)
               \<lparr>bucket_list :=
                  add_contacts recursion_limit 1 (contacts_with_ids [1, 2, 4, 8, 16])
                    (BucketList_init 0 (ID (2 ^ 159)))\<rparr>,
      closer_contacts = [], further_contacts = []\<rparr>"

text \<open>A node with the ID \<open>0\<close>, an empty storage, an empty cache storage and no contact.\<close>

definition fresh_node :: Node where
  "fresh_node = Node_init 0 (Contact_init 0 (ID 0) None) Map.empty (Some Map.empty)"

section \<open>Properties\<close>

subsection \<open>XOR distance\<close>

lemma xor_add_and: "(x XOR y) + 2 * (x AND y) = x + (y::int)"
proof -
  have d: "(x XOR y) AND (x AND y) = 0"
    by (auto simp: bit_eq_iff bit_simps)
  have "(x XOR y) + (x AND y) = (x XOR y) OR (x AND y)"
    using d by (rule disjunctive_add_eq_or)
  also have "\<dots> = x OR y"
    by (auto simp: bit_eq_iff bit_simps)
  finally have "(x XOR y) + (x AND y) = x OR y" .
  then show ?thesis using plus_and_or [of x y] by simp
qed

lemma xor_le_add:
  assumes "0 \<le> x" "0 \<le> y"
  shows "x XOR y \<le> x + (y::int)"
proof -
  from assms have "0 \<le> x AND y" by simp
  then show ?thesis using xor_add_and [of x y] by linarith
qed

lemma xor_triangle:
  assumes "0 \<le> a" "0 \<le> b" "0 \<le> c"
  shows "a XOR c \<le> (a XOR b) + (b XOR (c::int))"
proof -
  have "a XOR c = (a XOR b) XOR (b XOR c)"
    by (auto simp: bit_eq_iff bit_simps)
  moreover have "0 \<le> a XOR b" "0 \<le> b XOR c"
    using assms by simp_all
  ultimately show ?thesis
    using xor_le_add [of "a XOR b" "b XOR c"] by simp
qed

lemma xor_zero_iff: "(a XOR b = 0) = (a = (b::int))"
  by (metis xor.right_neutral xor_self_eq xor.assoc xor.left_neutral)

lemma ID_init_Inr: "ID_init v = Inr a \<Longrightarrow> a = ID v \<and> 0 \<le> v \<and> v < 2 ^ 160"
  by (auto simp: ID_init_def MAX_ID_def MIN_ID_def split: if_splits)

text \<open>
  Claim C9. For IDs \<open>a\<close>, \<open>b\<close>, \<open>c\<close> that the constructor accepts (values in
  \<open>[0, 2^160)\<close>), the XOR distance is symmetric, is zero exactly between equal IDs, and
  satisfies the triangle inequality, the distances read as (non-negative) integers.
\<close>

theorem ID_xor_metric:
  assumes "ID_init x = Inr a" and "ID_init y = Inr b" and "ID_init z = Inr c"
  shows "ID_xor a b = ID_xor b a
       \<and> ID_xor a a = 0
       \<and> ((ID_xor a b = 0) = (a = b))
       \<and> ID_xor a c \<le> ID_xor a b + ID_xor b c
       \<and> 0 \<le> ID_xor a b"
proof -
  from assms have v: "a = ID x" "b = ID y" "c = ID z" "0 \<le> x" "0 \<le> y" "0 \<le> z"
    by (auto dest: ID_init_Inr)
  have "ID_xor a b = ID_xor b a"
    by (simp add: ID_xor_def xor.commute)
  moreover have "ID_xor a a = 0"
    by (simp add: ID_xor_def)
  moreover have "(ID_xor a b = 0) = (a = b)"
    using v by (simp add: ID_xor_def xor_zero_iff)
  moreover have "ID_xor a c \<le> ID_xor a b + ID_xor b c"
    using v xor_triangle [of x y z] by (simp add: ID_xor_def)
  moreover have "0 \<le> ID_xor a b"
    using v by (simp add: ID_xor_def)
  ultimately show ?thesis by simp
qed

theorem ID_xor_metric_witness:
  "ID_init 5 = Inr (ID 5) \<and> ID_init 3 = Inr (ID 3) \<and> ID_init 12 = Inr (ID 12)
   \<and> ID_xor (ID 5) (ID 3) = 6 \<and> ID_xor (ID 3) (ID 5) = 6
   \<and> ID_xor (ID 5) (ID 12) \<le> ID_xor (ID 5) (ID 3) + ID_xor (ID 3) (ID 12)"
proof -
  have h: "ID_init 5 = Inr (ID 5)" "ID_init 3 = Inr (ID 3)" "ID_init 12 = Inr (ID 12)"
    by (simp_all add: ID_init_def MAX_ID_def MIN_ID_def)
  show ?thesis
    using h ID_xor_metric [OF h] by (simp add: ID_xor_def)
qed

subsection \<open>Locating a bucket\<close>

lemma get_kbucket_index_from_miss:
  "list_all (\<lambda>b. \<not> is_in_range b i) bs \<Longrightarrow> get_kbucket_index_from n bs i = -1"
  by (induction bs arbitrary: n) auto

lemma get_kbucket_index_from_bounds:
  "0 \<le> n \<Longrightarrow> get_kbucket_index_from n bs i = -1 \<or>
     (n \<le> get_kbucket_index_from n bs i \<and> get_kbucket_index_from n bs i < n + int (length bs))"
proof (induction bs arbitrary: n)
  case Nil
  then show ?case by simp
next
  case (Cons b bs)
  show ?case
  proof (cases "is_in_range b i")
    case True
    then show ?thesis by simp
  next
    case False
    from Cons.prems have "0 \<le> n + 1" by simp
    from Cons.IH [OF this] False show ?thesis by auto
  qed
qed

lemma py_getitem_minus_one:
  "xs \<noteq> [] \<Longrightarrow> py_getitem xs (-1) = Inr (last xs)"
  by (cases xs rule: rev_cases) (auto simp: py_getitem_def py_norm_def Let_def nth_append)

lemma py_getitem_error_iff:
  "i = -1 \<or> (0 \<le> i \<and> i < int (length xs)) \<Longrightarrow> (\<exists>e. py_getitem xs i = Inl e) = (xs = [])"
  by (auto simp: py_getitem_def py_norm_def Let_def)

text \<open>
  Claim C10. When the bucket list is not empty and the ID is in no bucket's range,
  \<open>_get_kbucket_index\<close> returns \<open>-1\<close> and \<open>get_kbucket\<close> returns the last bucket
  instead of raising; \<open>get_kbucket\<close> raises (and then it raises \<open>OutOfRangeError\<close>)
  exactly when the bucket list is empty.
\<close>

theorem get_kbucket_miss_is_last:
  "(buckets bl \<noteq> [] \<and> (\<forall>b \<in> set (buckets bl). \<not> is_in_range b i)
      \<longrightarrow> get_kbucket_index bl i = -1 \<and> get_kbucket bl i = Inr (last (buckets bl)))
   \<and> ((\<exists>e. get_kbucket bl i = Inl e) = (buckets bl = []))
   \<and> ((get_kbucket bl i = Inl OutOfRangeError) = (buckets bl = []))"
proof (intro conjI impI)
  assume h: "buckets bl \<noteq> [] \<and> (\<forall>b \<in> set (buckets bl). \<not> is_in_range b i)"
  then have "list_all (\<lambda>b. \<not> is_in_range b i) (buckets bl)"
    by (simp add: list_all_iff)
  then show idx: "get_kbucket_index bl i = -1"
    unfolding get_kbucket_index_def by (rule get_kbucket_index_from_miss)
  from h have "py_getitem (buckets bl) (-1) = Inr (last (buckets bl))"
    by (simp add: py_getitem_minus_one)
  with idx show "get_kbucket bl i = Inr (last (buckets bl))"
    by (simp add: get_kbucket_def)
next
  have b: "get_kbucket_index bl i = -1 \<or>
     (0 \<le> get_kbucket_index bl i \<and> get_kbucket_index bl i < int (length (buckets bl)))"
    using get_kbucket_index_from_bounds [of 0 "buckets bl" i]
    by (simp add: get_kbucket_index_def)
  have e: "(\<exists>e. py_getitem (buckets bl) (get_kbucket_index bl i) = Inl e) = (buckets bl = [])"
    using b by (rule py_getitem_error_iff)
  show "(\<exists>e. get_kbucket bl i = Inl e) = (buckets bl = [])"
    using e by (auto simp: get_kbucket_def split: sum.splits)
  show "(get_kbucket bl i = Inl OutOfRangeError) = (buckets bl = [])"
    using e by (auto simp: get_kbucket_def split: sum.splits)
qed

theorem get_kbucket_miss_is_last_witness:
  "get_kbucket_index \<lparr>buckets = [KBucket_init 0 0 5, KBucket_init 0 5 9], our_id = ID 1\<rparr> (ID 12) = -1
   \<and> get_kbucket \<lparr>buckets = [KBucket_init 0 0 5, KBucket_init 0 5 9], our_id = ID 1\<rparr> (ID 12)
       = Inr (KBucket_init 0 5 9)
   \<and> (get_kbucket \<lparr>buckets = [], our_id = ID 1\<rparr> (ID 12) = Inl OutOfRangeError)"
  using get_kbucket_miss_is_last [of "\<lparr>buckets = [KBucket_init 0 0 5, KBucket_init 0 5 9], our_id = ID 1\<rparr>" "ID 12"]
    get_kbucket_miss_is_last [of "\<lparr>buckets = [], our_id = ID 1\<rparr>" "ID 12"]
  by (simp add: is_in_range_def KBucket_init_def)


subsection \<open>Splitting a bucket\<close>

lemma split_loop_filter:
  assumes "low k1 = l" "high k1 = m" "low k2 = m" "high k2 = h"
    and "list_all (\<lambda>c. l \<le> ID_value (cid c) \<and> ID_value (cid c) \<le> h) cs"
    and "length (contacts k1) + length cs \<le> K"
    and "length (contacts k2) + length cs \<le> K"
  shows "split_loop m k1 k2 cs =
           Inr (k1\<lparr>contacts := contacts k1 @ filter (\<lambda>c. ID_value (cid c) < m) cs\<rparr>,
                k2\<lparr>contacts := contacts k2 @ filter (\<lambda>c. \<not> ID_value (cid c) < m) cs\<rparr>)"
  using assms
proof (induction cs arbitrary: k1 k2)
  case Nil
  then show ?case by simp
next
  case (Cons c cs)
  show ?case
  proof (cases "ID_value (cid c) < m")
    case True
    let ?k = "k1\<lparr>contacts := contacts k1 @ [c]\<rparr>"
    from Cons.prems True have a: "KBucket_add_contact k1 c = Inr ?k"
      by (simp add: KBucket_add_contact_def is_full_def is_in_range_def)
    have "split_loop m ?k k2 cs =
           Inr (?k\<lparr>contacts := contacts ?k @ filter (\<lambda>c. ID_value (cid c) < m) cs\<rparr>,
                k2\<lparr>contacts := contacts k2 @ filter (\<lambda>c. \<not> ID_value (cid c) < m) cs\<rparr>)"
      using Cons.prems by (intro Cons.IH) simp_all
    with a True show ?thesis by simp
  next
    case False
    let ?k = "k2\<lparr>contacts := contacts k2 @ [c]\<rparr>"
    from Cons.prems False have a: "KBucket_add_contact k2 c = Inr ?k"
      by (simp add: KBucket_add_contact_def is_full_def is_in_range_def)
    have "split_loop m k1 ?k cs =
           Inr (k1\<lparr>contacts := contacts k1 @ filter (\<lambda>c. ID_value (cid c) < m) cs\<rparr>,
                ?k\<lparr>contacts := contacts ?k @ filter (\<lambda>c. \<not> ID_value (cid c) < m) cs\<rparr>)"
      using Cons.prems by (intro Cons.IH) simp_all
    with a False show ?thesis by simp
  qed
qed

lemma sort_eq_Nil_iff: "(sort xs = []) = (xs = [])"
  by (metis length_sort length_0_conv)

lemma median_high_sorted:
  "xs \<noteq> [] \<Longrightarrow> median_high (sort xs) = Inr (sort xs ! (length xs div 2))"
  by (simp add: median_high_def Let_def sort_key_id_if_sorted sort_eq_Nil_iff)

lemma sorted_distinct_first_less:
  fixes s :: "int list"
  assumes "sorted s" "distinct s" "2 \<le> length s"
  shows "s ! 0 < s ! (length s div 2)"
proof -
  have "sorted_wrt (<) s"
    using assms by (simp add: strict_sorted_iff)
  moreover have "0 < length s div 2" "length s div 2 < length s"
    using assms by auto
  ultimately show ?thesis
    by (rule sorted_wrt_nth_less)
qed

lemma inj_ID_value: "inj ID_value"
  by (rule injI) (rule ID.expand)

lemma distinct_ids:
  assumes "distinct (map cid cs)"
  shows "distinct (map (\<lambda>c::contact. ID_value (cid c)) cs)"
proof -
  have "inj_on ID_value (set (map cid cs))"
    using inj_ID_value by (rule inj_on_subset) simp
  with assms have "distinct (map ID_value (map cid cs))"
    by (simp only: distinct_map simp_thms)
  then show ?thesis by (simp add: comp_def)
qed

text \<open>
  Claim C2 (amended). For a bucket that holds at least two contacts, at most \<open>K\<close> of
  them, with pairwise distinct IDs that all lie in the bucket's range, \<open>split\<close> returns
  two buckets \<open>k1\<close> and \<open>k2\<close> divided at \<open>m\<close>, the high median of the contact IDs. The
  range of \<open>k1\<close> holds every ID of the parent's range below \<open>m\<close> and no ID outside the
  parent's range or above \<open>m\<close>; the range of \<open>k2\<close> holds exactly \<open>m\<close> and the IDs of the
  parent's range above \<open>m\<close>. The contacts with an ID below \<open>m\<close> are in \<open>k1\<close>, all others
  (the one with the ID \<open>m\<close> among them) in \<open>k2\<close>, each in the order of the parent; both
  children hold a contact, and together they hold exactly the parent's contacts.
\<close>

theorem split_median:
  assumes two: "2 \<le> length (contacts b)"
    and cap: "length (contacts b) \<le> K"
    and dist: "distinct (map cid (contacts b))"
    and rng: "\<forall>c \<in> set (contacts b). is_in_range b (cid c)"
  shows "\<exists>m k1 k2.
           m = sort (map (\<lambda>c. ID_value (cid c)) (contacts b)) ! (length (contacts b) div 2)
         \<and> split now b = Inr (k1, k2)
         \<and> (\<forall>i. low b \<le> ID_value i \<and> ID_value i < m \<longrightarrow> is_in_range k1 i)
         \<and> (\<forall>i. is_in_range k1 i \<longrightarrow> low b \<le> ID_value i \<and> ID_value i \<le> m)
         \<and> (\<forall>i. is_in_range k2 i = (m \<le> ID_value i \<and> ID_value i \<le> high b))
         \<and> contacts k1 = filter (\<lambda>c. ID_value (cid c) < m) (contacts b)
         \<and> contacts k2 = filter (\<lambda>c. \<not> ID_value (cid c) < m) (contacts b)
         \<and> contacts k1 \<noteq> [] \<and> contacts k2 \<noteq> []
         \<and> mset (contacts k1) + mset (contacts k2) = mset (contacts b)
         \<and> set (contacts k1) \<union> set (contacts k2) = set (contacts b)"
proof -
  define cs where "cs = contacts b"
  define ids where "ids = map (\<lambda>c::contact. ID_value (cid c)) cs"
  define s where "s = sort ids"
  define m where "m = s ! (length cs div 2)"
  define k1 where "k1 = (KBucket_init now (low b) m)\<lparr>contacts := filter (\<lambda>c. ID_value (cid c) < m) cs\<rparr>"
  define k2 where "k2 = (KBucket_init now m (high b))\<lparr>contacts := filter (\<lambda>c. \<not> ID_value (cid c) < m) cs\<rparr>"
  have ne: "ids \<noteq> []" using two by (auto simp: ids_def cs_def)
  have len: "length s = length cs" "length ids = length cs" by (simp_all add: s_def ids_def)
  have med: "median_high s = Inr m"
    unfolding s_def m_def using median_high_sorted [OF ne] by (simp add: ids_def)
  have r: "list_all (\<lambda>c. low b \<le> ID_value (cid c) \<and> ID_value (cid c) \<le> high b) cs"
    using rng by (simp add: list_all_iff is_in_range_def cs_def)
  have loop: "split_loop m (KBucket_init now (low b) m) (KBucket_init now m (high b)) cs = Inr (k1, k2)"
    unfolding k1_def k2_def
    using split_loop_filter [of "KBucket_init now (low b) m" "low b" m "KBucket_init now m (high b)" "high b" cs]
      r cap by (simp add: KBucket_init_def cs_def)
  have sp: "split now b = Inr (k1, k2)"
    using med loop by (simp add: split_def Let_def s_def ids_def cs_def)
  have "distinct ids"
    using dist unfolding ids_def cs_def by (rule distinct_ids)
  then have ds: "distinct s" "sorted s" "set s = set ids" by (simp_all add: s_def)
  have lt: "s ! 0 < m"
    unfolding m_def using sorted_distinct_first_less [of s] ds two len by (simp add: cs_def)
  have "s ! 0 \<in> set ids" "m \<in> set ids"
    using ds two len by (auto simp: m_def cs_def simp flip: ds(3) intro!: nth_mem)
  then obtain c0 cm where c0: "c0 \<in> set cs" "ID_value (cid c0) = s ! 0"
      and cm: "cm \<in> set cs" "ID_value (cid cm) = m"
    by (auto simp: ids_def)
  have "ID_value (cid c0) < m" using c0 lt by simp
  with c0 have "c0 \<in> set (filter (\<lambda>c. ID_value (cid c) < m) cs)" by simp
  then have n1: "contacts k1 \<noteq> []"
    unfolding k1_def by (cases "filter (\<lambda>c. ID_value (cid c) < m) cs") simp_all
  have "\<not> ID_value (cid cm) < m" using cm by simp
  with cm have "cm \<in> set (filter (\<lambda>c. \<not> ID_value (cid c) < m) cs)" by simp
  then have n2: "contacts k2 \<noteq> []"
    unfolding k2_def by (cases "filter (\<lambda>c. \<not> ID_value (cid c) < m) cs") simp_all
  have flds: "low k1 = low b" "high k1 = m" "low k2 = m" "high k2 = high b"
    "contacts k1 = filter (\<lambda>c. ID_value (cid c) < m) cs"
    "contacts k2 = filter (\<lambda>c. \<not> ID_value (cid c) < m) cs"
    by (simp_all add: k1_def k2_def KBucket_init_def)
  have r1: "\<forall>i. low b \<le> ID_value i \<and> ID_value i < m \<longrightarrow> is_in_range k1 i"
    by (simp add: is_in_range_def flds(1,2))
  have r2: "\<forall>i. is_in_range k1 i \<longrightarrow> low b \<le> ID_value i \<and> ID_value i \<le> m"
    by (simp add: is_in_range_def flds(1,2))
  have r3: "\<forall>i. is_in_range k2 i = (m \<le> ID_value i \<and> ID_value i \<le> high b)"
    by (simp add: is_in_range_def flds(3,4))
  have ms: "mset (contacts k1) + mset (contacts k2) = mset cs"
    by (simp add: flds)
  have st: "set (contacts k1) \<union> set (contacts k2) = set cs"
    by (auto simp: flds)
  have mm: "m = sort (map (\<lambda>c. ID_value (cid c)) (contacts b)) ! (length (contacts b) div 2)"
    by (simp add: m_def s_def ids_def cs_def)
  show ?thesis
    apply (rule exI [of _ m], rule exI [of _ k1], rule exI [of _ k2])
    using mm sp r1 r2 r3 flds(5,6) n1 n2 ms st unfolding cs_def by blast
qed

text \<open>
  The claim as stated fails for a bucket with one contact: the high median is that
  contact's ID \<open>5\<close>, no contact is below it, so \<open>k1\<close> is empty; and \<open>k2\<close> starts at the
  median itself, which is in its range.
\<close>

theorem split_singleton_counterexample:
  "split 0 \<lparr>contacts = [Contact_init 0 (ID 5) None], low = 0, high = 2 ^ 160, time_stamp = 0\<rparr>
     = Inr (\<lparr>contacts = [], low = 0, high = 5, time_stamp = 0\<rparr>,
            \<lparr>contacts = [Contact_init 0 (ID 5) None], low = 5, high = 2 ^ 160, time_stamp = 0\<rparr>)
   \<and> is_in_range \<lparr>contacts = [Contact_init 0 (ID 5) None], low = 5, high = 2 ^ 160, time_stamp = 0\<rparr> (ID 5)"
  by code_simp

theorem split_median_witness:
  "split 0 \<lparr>contacts = [Contact_init 0 (ID 7) None, Contact_init 0 (ID 3) None],
             low = 0, high = 2 ^ 160, time_stamp = 0\<rparr>
     = Inr (\<lparr>contacts = [Contact_init 0 (ID 3) None], low = 0, high = 7, time_stamp = 0\<rparr>,
            \<lparr>contacts = [Contact_init 0 (ID 7) None], low = 7, high = 2 ^ 160, time_stamp = 0\<rparr>)
   \<and> contacts \<lparr>contacts = [Contact_init 0 (ID 3) None], low = 0, high = 7, time_stamp = 0\<rparr> \<noteq> []
   \<and> contacts \<lparr>contacts = [Contact_init 0 (ID 7) None], low = 7, high = 2 ^ 160, time_stamp = 0\<rparr> \<noteq> []"
proof -
  let ?b = "\<lparr>contacts = [Contact_init 0 (ID 7) None, Contact_init 0 (ID 3) None],
             low = 0, high = 2 ^ 160, time_stamp = 0\<rparr>"
  let ?c1 = "\<lparr>contacts = [Contact_init 0 (ID 3) None], low = 0, high = 7, time_stamp = 0\<rparr>"
  let ?c2 = "\<lparr>contacts = [Contact_init 0 (ID 7) None], low = 7, high = 2 ^ 160, time_stamp = 0\<rparr>"
  have h1: "2 \<le> length (contacts ?b)" by simp
  have h2: "length (contacts ?b) \<le> K" by (simp add: K_def)
  have h3: "distinct (map cid (contacts ?b))" by (simp add: Contact_init_def)
  have h4: "\<forall>c \<in> set (contacts ?b). is_in_range ?b (cid c)"
    by (simp add: Contact_init_def is_in_range_def)
  from split_median [OF h1 h2 h3 h4, of 0] obtain k1 k2 where
    s: "split 0 ?b = Inr (k1, k2)" and n: "contacts k1 \<noteq> []" "contacts k2 \<noteq> []"
    by blast
  have e: "split 0 ?b = Inr (?c1, ?c2)"
    by code_simp
  from trans [OF s [symmetric] e] have "k1 = ?c1 \<and> k2 = ?c2"
    by (simp only: sum.inject prod.inject)
  then have k: "k1 = ?c1" "k2 = ?c2" by blast+
  from e n [unfolded k] show ?thesis by blast
qed

subsection \<open>Closest contacts\<close>

lemma take_sort_key_closest:
  fixes f :: "'a \<Rightarrow> int"
  shows "sorted (map f (take n (sort_key f xs)))
       \<and> mset (take n (sort_key f xs)) \<subseteq># mset xs
       \<and> length (take n (sort_key f xs)) = min n (length xs)
       \<and> (\<forall>x \<in># mset xs - mset (take n (sort_key f xs)).
             \<forall>y \<in> set (take n (sort_key f xs)). f y \<le> f x)"
proof -
  define s where "s = sort_key f xs"
  define t where "t = take n s"
  define d where "d = drop n s"
  have app: "s = t @ d" by (simp add: t_def d_def)
  have srt: "sorted (map f (t @ d))"
    unfolding app [symmetric] s_def by simp
  have "mset s = mset xs" by (simp add: s_def)
  then have m: "mset xs = mset t + mset d" by (simp add: app)
  have 1: "sorted (map f t)"
    using srt by (simp add: sorted_append)
  have 2: "mset t \<subseteq># mset xs"
    by (simp add: m)
  have 3: "length t = min n (length xs)"
    by (simp add: t_def s_def min.commute)
  have df: "mset xs - mset t = mset d"
    by (simp add: m)
  have 4: "\<forall>x \<in># mset xs - mset t. \<forall>y \<in> set t. f y \<le> f x"
    using srt unfolding df by (auto simp: sorted_append)
  from 1 2 3 4 show ?thesis
    unfolding t_def s_def by blast
qed

text \<open>
  Claim C7. \<open>get_close_contacts\<close> returns (it never raises) a list that holds no contact
  with the excluded ID, has at most \<open>K = 20\<close> elements, is sorted ascending by
  \<open>id XOR key\<close>, is drawn from the non-excluded contacts of the bucket list, has
  \<open>min(K, number of non-excluded contacts)\<close> elements, and is closest: every non-excluded
  contact left out is at least as far from the key as every contact returned.
\<close>

theorem get_close_contacts_closest:
  "\<exists>r. get_close_contacts bl key exclude = Inr r
     \<and> (\<forall>c \<in> set r. cid c \<noteq> exclude)
     \<and> length r \<le> 20
     \<and> sorted (map (\<lambda>c. ID_xor (cid c) key) r)
     \<and> mset r \<subseteq># mset (filter (\<lambda>c. cid c \<noteq> exclude) (BucketList_contacts bl))
     \<and> length r = min 20 (length (filter (\<lambda>c. cid c \<noteq> exclude) (BucketList_contacts bl)))
     \<and> (\<forall>x \<in># mset (filter (\<lambda>c. cid c \<noteq> exclude) (BucketList_contacts bl)) - mset r.
           \<forall>y \<in> set r. ID_xor (cid y) key \<le> ID_xor (cid x) key)"
proof -
  define cands where "cands = filter (\<lambda>c. cid c \<noteq> exclude) (BucketList_contacts bl)"
  define f where "f = (\<lambda>c::contact. ID_xor (cid c) key)"
  define r where "r = take K (sort_key f cands)"
  have len: "length r \<le> 20" by (simp add: r_def K_def)
  then have res: "get_close_contacts bl key exclude = Inr r"
    by (simp add: get_close_contacts_def BucketList_contacts_def Let_def r_def f_def
        cands_def K_def)
  have c: "sorted (map f r) \<and> mset r \<subseteq># mset cands \<and> length r = min K (length cands)
      \<and> (\<forall>x \<in># mset cands - mset r. \<forall>y \<in> set r. f y \<le> f x)"
    unfolding r_def by (rule take_sort_key_closest)
  have "set r \<subseteq> set cands"
    using c set_mset_mono [of "mset r" "mset cands"] by simp
  then have excl: "\<forall>c \<in> set r. cid c \<noteq> exclude"
    by (auto simp: cands_def)
  have c3: "length r = min 20 (length cands)"
    using c by (simp add: K_def)
  show ?thesis
    apply (rule exI [of _ r])
    unfolding cands_def [symmetric]
    using res excl len c c3 unfolding f_def by blast
qed

theorem get_close_contacts_closest_witness:
  "get_close_contacts (bucket_list (node five_contacts_router)) (ID 5) (ID 2)
     = Inr [Contact_init 1 (ID 4) None, Contact_init 1 (ID 1) None,
            Contact_init 1 (ID 8) None, Contact_init 1 (ID 16) None]
   \<and> sorted (map (\<lambda>c. ID_xor (cid c) (ID 5))
         [Contact_init 1 (ID 4) None, Contact_init 1 (ID 1) None,
          Contact_init 1 (ID 8) None, Contact_init 1 (ID 16) None])
   \<and> list_all (\<lambda>c. cid c \<noteq> ID 2)
         [Contact_init 1 (ID 4) None, Contact_init 1 (ID 1) None,
          Contact_init 1 (ID 8) None, Contact_init 1 (ID 16) None]"
proof -
  let ?bl = "bucket_list (node five_contacts_router)"
  let ?r = "[Contact_init 1 (ID 4) None, Contact_init 1 (ID 1) None,
            Contact_init 1 (ID 8) None, Contact_init 1 (ID 16) None]"
  from get_close_contacts_closest [of ?bl "ID 5" "ID 2"] obtain r where
    s: "get_close_contacts ?bl (ID 5) (ID 2) = Inr r"
    and x: "\<forall>c \<in> set r. cid c \<noteq> ID 2"
    and o: "sorted (map (\<lambda>c. ID_xor (cid c) (ID 5)) r)"
    by blast
  have e: "get_close_contacts ?bl (ID 5) (ID 2) = Inr ?r"
    by code_simp
  from trans [OF s [symmetric] e] have k: "r = ?r"
    by (simp only: sum.inject)
  from x have x': "list_all (\<lambda>c. cid c \<noteq> ID 2) r"
    by (simp only: list_all_iff)
  from e o [unfolded k] x' [unfolded k] show ?thesis by blast
qed

subsection \<open>Bucket ranges after a split\<close>

text \<open>
  Claim C1. The claim says that every ID lies in the range of exactly one bucket. After
  the split that the 21st insertion triggers, the two buckets have the ranges \<open>[0, 10]\<close>
  and \<open>[10, 2^160]\<close>, both closed as \<open>is_in_range\<close> reads them, and the ID \<open>10\<close> lies in
  the range of both.
\<close>

theorem ranges_overlap_after_split:
  "map (\<lambda>b. (low b, high b, contact_ids (contacts b))) (buckets split_on_overflow)
     = [(0, 10, [0, 1, 2, 3, 4, 5, 6, 7, 8, 9]),
        (10, 2 ^ 160, [10, 11, 12, 13, 14, 15, 16, 17, 18, 19, 20])]
   \<and> map (\<lambda>b. is_in_range b (ID 10)) (buckets split_on_overflow) = [True, True]"
  by code_simp

subsection \<open>Adding a contact twice\<close>

text \<open>
  Claim C8. In the same bucket list the contact with the ID \<open>10\<close> is stored once, in the
  second bucket. \<open>add_contact\<close> of a contact with that ID returns normally, but
  \<open>get_kbucket\<close> finds the first bucket (whose range also holds \<open>10\<close>), which does not
  contain the ID: the contact is appended there. The ID is then stored twice, and the
  entry that was present keeps its old time stamp.
\<close>

theorem add_contact_twice_duplicates:
  "contact_ids (BucketList_contacts split_on_overflow)
     = [0, 1, 2, 3, 4, 5, 6, 7, 8, 9, 10, 11, 12, 13, 14, 15, 16, 17, 18, 19, 20]
   \<and> snd (BucketList_add_contact recursion_limit 2 (Contact_init 2 (ID 10) None) split_on_overflow) = None
   \<and> map (\<lambda>b. (low b, high b, contact_ids (contacts b)))
        (buckets (fst (BucketList_add_contact recursion_limit 2 (Contact_init 2 (ID 10) None) split_on_overflow)))
     = [(0, 10, [0, 1, 2, 3, 4, 5, 6, 7, 8, 9, 10]),
        (10, 2 ^ 160, [10, 11, 12, 13, 14, 15, 16, 17, 18, 19, 20])]
   \<and> map last_seen (filter (\<lambda>c. cid c = ID 10)
        (BucketList_contacts
           (fst (BucketList_add_contact recursion_limit 2 (Contact_init 2 (ID 10) None) split_on_overflow))))
     = [2, 1]"
  by code_simp

subsection \<open>Seeding a lookup\<close>

text \<open>
  Claim C3. With five seed contacts, ordered \<open>4, 1, 2, 8, 16\<close> by distance to the key
  \<open>5\<close>, the first three are queried and classified; the loop over \<open>all_nodes[A + 1:]\<close>
  then pushes only the contact \<open>16\<close>. The contact \<open>8\<close>, at index \<open>A = 3\<close>, is in neither
  list.
\<close>

theorem lookup_drops_seed_at_index_A:
  "map_sum id contact_ids
      (get_close_contacts (bucket_list (node five_contacts_router)) (ID 5) (ID (2 ^ 159)))
     = Inr [4, 1, 2, 8, 16]
   \<and> map_sum id (\<lambda>(q, r). (contact_ids q, contact_ids (closer_contacts r),
                            contact_ids (further_contacts r)))
        (lookup_seed five_contacts_router (ID 5))
     = Inr ([4, 1, 2], [4, 1, 2], [16])"
  by code_simp

subsection \<open>Contacts learned from a response\<close>

text \<open>
  Claim C4. The response holds a contact with the ID \<open>1\<close>, which is already in
  \<open>further_contacts\<close>. The filter does not exclude it, and since it is closer to the key
  than the queried node it is appended to \<open>closer_contacts\<close>: the ID is now in both lists.
\<close>

theorem get_closer_nodes_duplicates_further:
  "get_closer_nodes five_contacts_router (ID 0) (Contact_init 0 (ID 8) None)
      (\<lambda>key queried. ([Contact_init 0 (ID 1) None], None, None))
      [] [Contact_init 0 (ID 1) None]
     = (False, [Contact_init 0 (ID 1) None], [Contact_init 0 (ID 1) None])"
  by code_simp

subsection \<open>Inbound handlers and the routing table\<close>

text \<open>
  Claim C5. On a node without contacts, \<open>find_value\<close> and \<open>ping\<close> from a sender with
  another ID return normally and leave the bucket list without contacts; \<open>find_node\<close>
  from the same sender inserts it.
\<close>

theorem find_value_and_ping_skip_add_contact:
  "BucketList_contacts (bucket_list (fst (find_value fresh_node (ID 5) (Contact_init 0 (ID 7) None)))) = []
   \<and> snd (find_value fresh_node (ID 5) (Contact_init 0 (ID 7) None)) = Inr (Some [], None)
   \<and> BucketList_contacts (bucket_list (fst (ping fresh_node (Contact_init 0 (ID 7) None)))) = []
   \<and> snd (ping fresh_node (Contact_init 0 (ID 7) None)) = None
   \<and> contact_ids (BucketList_contacts (bucket_list
        (fst (find_node recursion_limit 1 fresh_node (ID 5) (Contact_init 0 (ID 7) None))))) = [7]"
  by code_simp

subsection \<open>Depth of a bucket\<close>

text \<open>
  Claim C6. For a bucket whose only contact has the ID \<open>5\<close> (binary \<open>101\<close>),
  \<open>shared_bits\<close> is the string \<open>1\<close> and \<open>depth\<close> is \<open>1\<close>, not \<open>160\<close>. For the IDs \<open>2\<close> and
  \<open>3\<close>, which agree on 159 of their 160 bits, \<open>depth\<close> is \<open>0\<close>.
\<close>

theorem depth_ignores_leading_bits:
  "shared_bits \<lparr>contacts = [Contact_init 0 (ID 5) None], low = 0, high = 2 ^ 160, time_stamp = 0\<rparr>
     = Inr ''1''
   \<and> depth \<lparr>contacts = [Contact_init 0 (ID 5) None], low = 0, high = 2 ^ 160, time_stamp = 0\<rparr>
     = Inr 1
   \<and> depth \<lparr>contacts = [Contact_init 0 (ID 2) None, Contact_init 0 (ID 3) None],
             low = 0, high = 2 ^ 160, time_stamp = 0\<rparr>
     = Inr 0"
  by code_simp

end
